theory Spec2Isabelle
  imports Main "HOL-Library.Word"
begin

section \<open>The contact form script (portfolio.js)\<close>

text \<open>
  The script keeps three element references (the form \<open>contact_form\<close>, the overlay
  \<open>modal\<close> and the first \<open>.close-button\<close>) and registers three listeners: \<open>submit\<close>
  on the form, \<open>click\<close> on the close button and \<open>click\<close> on the window. The model
  below is a state-passing embedding: a \<open>page\<close> holds the two pieces of DOM state the
  listeners write (the form and \<open>modal.style.display\<close>) and the ordered list of calls
  they make to the host (\<open>preventDefault\<close>, \<open>fetch\<close>, \<open>alert\<close>). The three elements are
  taken to exist, as the document the script is written for provides them, and the
  model starts once the script has run to its end and the listeners are registered.
  What the host does for the script (property lookup on the form, \<open>form.reset()\<close>,
  \<open>new FormData(form)\<close>, \<open>response.ok\<close>) follows the HTML, XMLHttpRequest and Fetch
  standards.
\<close>

subsection \<open>Strings\<close>

text \<open>
  A JavaScript string is a sequence of UTF-16 code units. ASCII literals of the source
  are written through \<open>ascii\<close>; the two alert texts are given by their code units.
\<close>

type_synonym jsstring = "16 word list"

definition ascii :: "string \<Rightarrow> jsstring" where
  "ascii cs = map of_char cs"

definition is_lead :: "16 word \<Rightarrow> bool" where
  "is_lead c = (0xD800 \<le> c \<and> c \<le> 0xDBFF)"

definition is_trail :: "16 word \<Rightarrow> bool" where
  "is_trail c = (0xDC00 \<le> c \<and> c \<le> 0xDFFF)"

text \<open>
  The host's conversion of a string to a scalar value string: a surrogate that is not
  part of a lead/trail pair becomes U+FFFD.
\<close>

fun scalar_value_string :: "jsstring \<Rightarrow> jsstring" where
  "scalar_value_string [] = []"
| "scalar_value_string [c] = [if is_lead c \<or> is_trail c then 0xFFFD else c]"
| "scalar_value_string (c # d # cs) =
     (if is_lead c \<and> is_trail d then c # d # scalar_value_string cs
      else (if is_lead c \<or> is_trail c then 0xFFFD else c) # scalar_value_string (d # cs))"

subsection \<open>The form and its controls\<close>

text \<open>
  The controls covered are those of a contact form: text controls (\<open>input\<close> in a text
  state, \<open>textarea\<close>), checkboxes and radio buttons, file inputs, and buttons
  (\<open>button\<close>, \<open>input\<close> of type \<open>submit\<close>, \<open>reset\<close> or \<open>button\<close>). A control carries
  what the host keeps for it: its \<open>name\<close> and \<open>id\<close> attributes if present, whether it is
  disabled, and its state. Image buttons, \<open>select\<close>, hidden inputs, \<open>dirname\<close>,
  custom elements and images owned by the form are outside the model.
\<close>

record jsfile =
  file_name :: jsstring
  file_type :: jsstring
  file_bytes :: "8 word list"

datatype widget =
    TextField jsstring jsstring
  | Checkbox "jsstring option" bool bool
  | FileField "jsfile list"
  | Button

text \<open>
  \<open>TextField d v\<close>: default value \<open>d\<close>, current value \<open>v\<close>. \<open>Checkbox a d c\<close>: the
  \<open>value\<close> attribute if present, the default checkedness, the current checkedness.
  \<open>FileField fs\<close>: the selected files.
\<close>

record control =
  cname :: "jsstring option"
  cid :: "jsstring option"
  disabled :: bool
  widget :: widget

text \<open>
  \<open>action\<close> is the value of the form's own \<open>action\<close> property (the submission URL);
  \<open>elements\<close> are the controls the form owns, in tree order.
\<close>

record form =
  action :: jsstring
  elements :: "control list"

text \<open>
  Property lookup on a form element: the controls whose \<open>id\<close> or \<open>name\<close> is \<open>n\<close> come
  first, before the properties of the interface. One such control is returned as the
  element itself, several as a node list.
\<close>

definition named :: "jsstring \<Rightarrow> form \<Rightarrow> control list" where
  "named n f = filter (\<lambda>c. cid c = Some n \<or> cname c = Some n) (elements f)"

datatype named_object = Element control | RadioNodeList "control list"

definition named_item :: "jsstring \<Rightarrow> form \<Rightarrow> named_object option" where
  "named_item n f =
     (case named n f of [] \<Rightarrow> None | [c] \<Rightarrow> Some (Element c) | cs \<Rightarrow> Some (RadioNodeList cs))"

datatype error = TypeError

text \<open>The host's reset algorithm of each control, and of the form.\<close>

fun reset_widget :: "widget \<Rightarrow> widget" where
  "reset_widget (TextField d v) = TextField d d"
| "reset_widget (Checkbox a d c) = Checkbox a d d"
| "reset_widget (FileField fs) = FileField []"
| "reset_widget Button = Button"

definition reset :: "form \<Rightarrow> form" where
  "reset f = f\<lparr>elements := map (\<lambda>c. c\<lparr>widget := reset_widget (widget c)\<rparr>) (elements f)\<rparr>"

text \<open>
  The expression \<open>form.reset()\<close>: when a control is named \<open>reset\<close> the lookup yields
  that control, which is not callable, and the call throws.
\<close>

definition form_reset :: "form \<Rightarrow> error + form" where
  "form_reset f =
     (case named_item (ascii ''reset'') f of None \<Rightarrow> Inr (reset f) | Some obj \<Rightarrow> Inl TypeError)"

text \<open>
  The expression \<open>form.action\<close>: the submission URL, or the control named \<open>action\<close>
  when there is one.
\<close>

datatype fetch_input = UrlString jsstring | Object named_object

definition form_action :: "form \<Rightarrow> fetch_input" where
  "form_action f =
     (case named_item (ascii ''action'') f of None \<Rightarrow> UrlString (action f)
      | Some obj \<Rightarrow> Object obj)"

subsection \<open>The entry list of a form\<close>

datatype entry_value = StringValue jsstring | FileValue jsfile

type_synonym entries = "(jsstring \<times> entry_value) list"

fun create_entry :: "jsstring \<Rightarrow> entry_value \<Rightarrow> jsstring \<times> entry_value" where
  "create_entry n (StringValue v) = (scalar_value_string n, StringValue (scalar_value_string v))"
| "create_entry n (FileValue f) = (scalar_value_string n, FileValue f)"

definition empty_file :: jsfile where
  "empty_file = \<lparr>file_name = [], file_type = ascii ''application/octet-stream'', file_bytes = []\<rparr>"

text \<open>
  The entries one control contributes when the entry list is constructed without a
  submitter: none if it is disabled, a button, an unchecked checkbox or radio button,
  or has no name or an empty one.
\<close>

fun skipped :: "control \<Rightarrow> bool" where
  "skipped c =
     (disabled c \<or>
      (case widget c of Button \<Rightarrow> True | Checkbox a d ch \<Rightarrow> \<not> ch | _ \<Rightarrow> False))"

fun widget_entries :: "jsstring \<Rightarrow> widget \<Rightarrow> entries" where
  "widget_entries n (Checkbox a d ch) =
     [create_entry n (StringValue (case a of None \<Rightarrow> ascii ''on'' | Some v \<Rightarrow> v))]"
| "widget_entries n (FileField []) = [create_entry n (FileValue empty_file)]"
| "widget_entries n (FileField fs) = map (\<lambda>f. create_entry n (FileValue f)) fs"
| "widget_entries n (TextField d v) = [create_entry n (StringValue v)]"
| "widget_entries n Button = []"

definition control_entries :: "control \<Rightarrow> entries" where
  "control_entries c =
     (if skipped c then []
      else case cname c of None \<Rightarrow> []
           | Some n \<Rightarrow> if n = [] then [] else widget_entries n (widget c))"

text \<open>\<open>new FormData(form)\<close>: the entry list of the form, in tree order.\<close>

definition FormData :: "form \<Rightarrow> entries" where
  "FormData f = concat (map control_entries (elements f))"

subsection \<open>Requests, responses and promises\<close>

text \<open>
  The bodies \<open>fetch\<close> accepts, as far as the encoding the host chooses for them goes: a
  \<open>FormData\<close> object is sent as \<open>multipart/form-data\<close>.
\<close>

datatype body = FormDataBody entries | URLSearchParamsBody "(jsstring \<times> jsstring) list"
  | StringBody jsstring



record request =
  resource :: fetch_input
  rmethod :: jsstring
  rbody :: body
  headers :: "(jsstring \<times> jsstring) list"

record response =
  status :: nat
  content :: jsstring

text \<open>\<open>response.ok\<close> is true exactly for the statuses 200 to 299.\<close>

definition ok :: "response \<Rightarrow> bool" where
  "ok r = (200 \<le> status r \<and> status r \<le> 299)"

datatype settled = Fulfilled response | Rejected

text \<open>How a handler ends: normally, or by throwing (the state is the one reached so far).\<close>

datatype 'a completion = Normal 'a | Throw 'a

subsection \<open>The page\<close>

datatype element = ContactForm | Modal | CloseButton | Other nat

datatype call = PreventDefault | Fetch request | Alert jsstring

datatype branch = Success | HttpFailure | NetworkFailure

text \<open>
  \<open>calls\<close> lists the host calls made so far, oldest first. \<open>issued\<close> counts the
  \<open>fetch\<close> calls; the \<open>n\<close>-th one is submission attempt \<open>n\<close>, and \<open>pending\<close> holds the
  attempts whose promise has not settled. \<open>ran\<close> records, for the attempt it belongs
  to, each branch of the \<open>then\<close>/\<open>catch\<close> handlers that has been entered.
\<close>

record page =
  form :: form
  modal_display :: jsstring
  calls :: "call list"
  issued :: nat
  pending :: "nat list"
  ran :: "(nat \<times> branch) list"

definition http_failure_text :: jsstring where
  "http_failure_text =
     [0x9001, 0x4FE1, 0x306B, 0x5931, 0x6557, 0x3057, 0x307E, 0x3057, 0x305F, 0x3002]"

definition network_failure_text :: jsstring where
  "network_failure_text =
     [0x901A, 0x4FE1, 0x30A8, 0x30E9, 0x30FC, 0x304C, 0x767A, 0x751F, 0x3057, 0x307E,
      0x3057, 0x305F, 0x3002]"

definition alert :: "jsstring \<Rightarrow> page \<Rightarrow> page" where
  "alert msg s = s\<lparr>calls := calls s @ [Alert msg]\<rparr>"

subsection \<open>The submit listener\<close>

text \<open>
  The synchronous part: \<open>e.preventDefault()\<close>, then \<open>new FormData(form)\<close>, then the
  \<open>fetch\<close> call, whose promise is left pending.
\<close>

definition on_submit :: "page \<Rightarrow> page" where
  "on_submit s =
     (let s1 = s\<lparr>calls := calls s @ [PreventDefault]\<rparr>;
          formData = FormData (form s1);
          req = \<lparr>resource = form_action (form s1), rmethod = ascii ''POST'',
                 rbody = FormDataBody formData,
                 headers = [(ascii ''Accept'', ascii ''application/json'')]\<rparr>
      in s1\<lparr>calls := calls s1 @ [Fetch req], issued := Suc (issued s1),
            pending := pending s1 @ [issued s1]\<rparr>)"

text \<open>
  The function given to \<open>then\<close>, run for attempt \<open>i\<close> with the response. In the success
  branch \<open>form.reset()\<close> comes first; if it throws, the assignment to the display is not
  reached.
\<close>

definition then_handler :: "nat \<Rightarrow> response \<Rightarrow> page \<Rightarrow> page completion" where
  "then_handler i r s =
     (if ok r then
        (let s1 = s\<lparr>ran := ran s @ [(i, Success)]\<rparr>
         in case form_reset (form s1) of
              Inl e \<Rightarrow> Throw s1
            | Inr f \<Rightarrow> Normal (s1\<lparr>form := f, modal_display := ascii ''block''\<rparr>))
      else
        (let s1 = s\<lparr>ran := ran s @ [(i, HttpFailure)]\<rparr>
         in Normal (alert http_failure_text s1)))"

text \<open>The function given to \<open>catch\<close>.\<close>

definition catch_handler :: "nat \<Rightarrow> page \<Rightarrow> page" where
  "catch_handler i s = alert network_failure_text (s\<lparr>ran := ran s @ [(i, NetworkFailure)]\<rparr>)"

text \<open>
  \<open>fetch(...).then(f).catch(g)\<close>: \<open>g\<close> handles a rejection of the \<open>fetch\<close> promise and
  also an exception thrown by \<open>f\<close>.
\<close>

fun settle :: "nat \<Rightarrow> settled \<Rightarrow> page \<Rightarrow> page" where
  "settle i (Fulfilled r) s =
     (case then_handler i r s of Normal s' \<Rightarrow> s' | Throw s' \<Rightarrow> catch_handler i s')"
| "settle i Rejected s = catch_handler i s"

subsection \<open>The click listeners\<close>

definition on_close_click :: "page \<Rightarrow> page" where
  "on_close_click s = s\<lparr>modal_display := ascii ''none''\<rparr>"

definition on_window_click :: "element \<Rightarrow> page \<Rightarrow> page" where
  "on_window_click target s =
     (if target = Modal then s\<lparr>modal_display := ascii ''none''\<rparr> else s)"

subsection \<open>The page as an event-driven system\<close>

text \<open>
  Listeners run to completion, one at a time. Besides the three listeners and the
  settling of a pending \<open>fetch\<close> promise, the user may change the state of a control
  (type into it, tick it, choose files); names, ids and kinds of controls stay.
  A promise settles at most once: \<open>Settle i\<close> is possible only while \<open>i\<close> is pending.
\<close>

datatype input = Typed jsstring | Ticked bool | Chosen "jsfile list"

fun user_input :: "input \<Rightarrow> widget \<Rightarrow> widget" where
  "user_input (Typed v) (TextField d old) = TextField d v"
| "user_input (Ticked b) (Checkbox a d old) = Checkbox a d b"
| "user_input (Chosen fs) (FileField old) = FileField fs"
| "user_input i w = w"

definition edit :: "nat \<Rightarrow> input \<Rightarrow> form \<Rightarrow> form" where
  "edit k i f =
     f\<lparr>elements := (elements f)[k := (elements f ! k)\<lparr>widget := user_input i (widget (elements f ! k))\<rparr>]\<rparr>"

datatype ev = Submit | Settle nat settled | CloseClick | WindowClick element | Input nat input

fun fire :: "ev \<Rightarrow> page \<Rightarrow> page option" where
  "fire Submit s = Some (on_submit s)"
| "fire (Settle i out) s =
     (if i \<in> set (pending s) then Some (settle i out (s\<lparr>pending := removeAll i (pending s)\<rparr>))
      else None)"
| "fire CloseClick s = Some (on_close_click s)"
| "fire (WindowClick target) s = Some (on_window_click target s)"
| "fire (Input k i) s =
     (if k < length (elements (form s)) then Some (s\<lparr>form := edit k i (form s)\<rparr>) else None)"

fun run :: "ev list \<Rightarrow> page \<Rightarrow> page option" where
  "run [] s = Some s"
| "run (e # es) s = (case fire e s of None \<Rightarrow> None | Some s' \<Rightarrow> run es s')"

text \<open>The page once the script has been loaded, before any event.\<close>

definition loaded :: "form \<Rightarrow> jsstring \<Rightarrow> page" where
  "loaded f d = \<lparr>form = f, modal_display = d, calls = [], issued = 0, pending = [], ran = []\<rparr>"

subsection \<open>Vocabulary of the properties\<close>

text \<open>The calls a listener run has added to the log.\<close>

definition new_calls :: "page \<Rightarrow> page \<Rightarrow> call list" where
  "new_calls s s' = drop (length (calls s)) (calls s')"


text \<open>The branches entered so far for attempt \<open>i\<close>, oldest first.\<close>

definition branches :: "nat \<Rightarrow> page \<Rightarrow> branch list" where
  "branches i s = map snd (filter (\<lambda>p. fst p = i) (ran s))"

text \<open>
  The outcome of an attempt as the way its promise settles determines it: a response
  with a success status, a response with another status, or no response.
\<close>

fun branch_of :: "settled \<Rightarrow> branch" where
  "branch_of (Fulfilled r) = (if ok r then Success else HttpFailure)"
| "branch_of Rejected = NetworkFailure"

text \<open>Two settlements are the same outcome when both reject or both carry the same status.\<close>

fun same_outcome :: "settled \<Rightarrow> settled \<Rightarrow> bool" where
  "same_outcome (Fulfilled r1) (Fulfilled r2) = (status r1 = status r2)"
| "same_outcome Rejected Rejected = True"
| "same_outcome a b = False"

text \<open>A control in the state a reset leaves it in.\<close>

fun at_default :: "widget \<Rightarrow> bool" where
  "at_default (TextField d v) = (v = d)"
| "at_default (Checkbox a d c) = (c = d)"
| "at_default (FileField fs) = (fs = [])"
| "at_default Button = True"

text \<open>The \<open>id\<close> and \<open>name\<close> of every control, which no event changes.\<close>

definition labels :: "form \<Rightarrow> (jsstring option \<times> jsstring option) list" where
  "labels f = map (\<lambda>c. (cid c, cname c)) (elements f)"






text \<open>
  Bookkeeping of attempts: every attempt issued so far is either pending or has
  entered a branch, never both, and no attempt is listed twice.
\<close>

definition attempts_ok :: "page \<Rightarrow> bool" where
  "attempts_ok s =
     (distinct (pending s) \<and> distinct (map fst (ran s)) \<and>
      set (pending s) \<inter> fst ` set (ran s) = {} \<and>
      set (pending s) \<union> fst ` set (ran s) = {..<issued s})"

text \<open>
  Sample documents for concrete instances. \<open>demo_form\<close> has a filled text control, a
  file control with one file chosen, an unticked checkbox and an unnamed submit button;
  its overlay is hidden. The two variants add a reset button named \<open>reset\<close>, and a text
  control named \<open>action\<close>.
\<close>

definition demo_form :: form where
  "demo_form =
     \<lparr>action = ascii ''/send'',
      elements =
        [\<lparr>cname = Some (ascii ''email''), cid = None, disabled = False,
          widget = TextField [] (ascii ''a@b'')\<rparr>,
         \<lparr>cname = Some (ascii ''cv''), cid = None, disabled = False,
          widget = FileField [\<lparr>file_name = ascii ''cv.pdf'', file_type = ascii ''application/pdf'',
                               file_bytes = [0x25, 0x50, 0x44, 0x46]\<rparr>]\<rparr>,
         \<lparr>cname = Some (ascii ''news''), cid = None, disabled = False,
          widget = Checkbox None False False\<rparr>,
         \<lparr>cname = None, cid = Some (ascii ''send''), disabled = False, widget = Button\<rparr>]\<rparr>"

definition demo_page :: page where
  "demo_page = loaded demo_form (ascii ''none'')"

definition reset_named_form :: form where
  "reset_named_form =
     demo_form\<lparr>elements := elements demo_form @
       [\<lparr>cname = Some (ascii ''reset''), cid = None, disabled = False, widget = Button\<rparr>]\<rparr>"

definition reset_named_page :: page where
  "reset_named_page = loaded reset_named_form (ascii ''none'')"



section \<open>Auxiliary facts\<close>

subsection \<open>Names of controls\<close>

lemma named_empty_iff:
  "named n f = [] \<longleftrightarrow> (\<forall>l \<in> set (labels f). fst l \<noteq> Some n \<and> snd l \<noteq> Some n)"
  by (auto simp: named_def labels_def filter_empty_conv)

lemma named_labels_cong: "labels f = labels g \<Longrightarrow> named n f = [] \<longleftrightarrow> named n g = []"
  by (simp add: named_empty_iff)

lemma labels_reset: "labels (reset f) = labels f"
  by (simp add: labels_def reset_def comp_def)

lemma map_update_same: "(map g xs)[k := g (xs ! k)] = map g xs"
  by (induction xs arbitrary: k) (auto split: nat.splits)

lemma labels_edit: "labels (edit k i f) = labels f"
proof -
  have "map (\<lambda>c. (cid c, cname c)) ((elements f)[k := (elements f ! k)\<lparr>widget := w\<rparr>])
        = map (\<lambda>c. (cid c, cname c)) (elements f)" for w
    using map_update_same [of "\<lambda>c. (cid c, cname c)" "elements f" k] by (simp add: map_update)
  then show ?thesis by (simp add: labels_def edit_def)
qed

lemma form_reset_callable: "named (ascii ''reset'') f = [] \<Longrightarrow> form_reset f = Inr (reset f)"
  by (simp add: form_reset_def named_item_def)

lemma form_reset_shadowed: "named (ascii ''reset'') f \<noteq> [] \<Longrightarrow> form_reset f = Inl TypeError"
  by (simp add: form_reset_def named_item_def split: list.splits)


lemma reset_at_default: "c \<in> set (elements (reset f)) \<Longrightarrow> at_default (widget c)"
proof -
  have "at_default (reset_widget w)" for w by (cases w) simp_all
  then show "c \<in> set (elements (reset f)) \<Longrightarrow> at_default (widget c)"
    by (auto simp: reset_def)
qed

subsection \<open>What settling a promise does\<close>

lemma settle_fulfilled_ok:
  "ok r \<Longrightarrow> named (ascii ''reset'') (form s) = [] \<Longrightarrow>
   settle i (Fulfilled r) s =
     s\<lparr>ran := ran s @ [(i, Success)], form := reset (form s), modal_display := ascii ''block''\<rparr>"
  by (simp add: then_handler_def Let_def form_reset_callable)

lemma settle_fulfilled_ok_throw:
  "ok r \<Longrightarrow> named (ascii ''reset'') (form s) \<noteq> [] \<Longrightarrow>
   settle i (Fulfilled r) s =
     s\<lparr>ran := ran s @ [(i, Success), (i, NetworkFailure)],
       calls := calls s @ [Alert network_failure_text]\<rparr>"
  by (simp add: then_handler_def Let_def form_reset_shadowed catch_handler_def alert_def)

lemma settle_fulfilled_not_ok:
  "\<not> ok r \<Longrightarrow> settle i (Fulfilled r) s =
     s\<lparr>ran := ran s @ [(i, HttpFailure)], calls := calls s @ [Alert http_failure_text]\<rparr>"
  by (simp add: then_handler_def Let_def alert_def)

lemma settle_rejected:
  "settle i Rejected s =
     s\<lparr>ran := ran s @ [(i, NetworkFailure)], calls := calls s @ [Alert network_failure_text]\<rparr>"
  by (simp add: catch_handler_def alert_def)

declare settle.simps [simp del]

lemmas settle_eqs =
  settle_fulfilled_ok settle_fulfilled_ok_throw settle_fulfilled_not_ok settle_rejected

lemma settle_cases:
  obtains (success) r where "out = Fulfilled r" "ok r" "named (ascii ''reset'') (form s) = []"
  | (throw) r where "out = Fulfilled r" "ok r" "named (ascii ''reset'') (form s) \<noteq> []"
  | (http) r where "out = Fulfilled r" "\<not> ok r"
  | (network) "out = Rejected"
  by (cases out) auto

lemma ran_settle:
  "ran (settle i out s) =
     ran s @ (i, branch_of out) #
       (if branch_of out = Success \<and> named (ascii ''reset'') (form s) \<noteq> []
        then [(i, NetworkFailure)] else [])"
  by (cases out s rule: settle_cases) (simp_all add: settle_eqs)

lemma issued_settle: "issued (settle i out s) = issued s"
  by (cases out s rule: settle_cases) (simp_all add: settle_eqs)

lemma pending_settle: "pending (settle i out s) = pending s"
  by (cases out s rule: settle_cases) (simp_all add: settle_eqs)

lemma calls_settle:
  "calls (settle i out s) =
     calls s @ (case branch_of out of
                  Success \<Rightarrow> if named (ascii ''reset'') (form s) = [] then []
                             else [Alert network_failure_text]
                | HttpFailure \<Rightarrow> [Alert http_failure_text]
                | NetworkFailure \<Rightarrow> [Alert network_failure_text])"
  by (cases out s rule: settle_cases) (simp_all add: settle_eqs)

lemma display_settle:
  "modal_display (settle i out s) =
     (if branch_of out = Success \<and> named (ascii ''reset'') (form s) = [] then ascii ''block''
      else modal_display s)"
  by (cases out s rule: settle_cases) (simp_all add: settle_eqs)

lemma form_settle:
  "form (settle i out s) =
     (if branch_of out = Success \<and> named (ascii ''reset'') (form s) = [] then reset (form s)
      else form s)"
  by (cases out s rule: settle_cases) (simp_all add: settle_eqs)

lemma labels_settle: "labels (form (settle i out s)) = labels (form s)"
  by (simp add: form_settle labels_reset)

lemma calls_on_submit:
  "calls (on_submit s) = calls s @ [PreventDefault,
     Fetch \<lparr>resource = form_action (form s), rmethod = ascii ''POST'',
            rbody = FormDataBody (FormData (form s)),
            headers = [(ascii ''Accept'', ascii ''application/json'')]\<rparr>]"
  by (simp add: on_submit_def Let_def)

lemma form_on_submit: "form (on_submit s) = form s"
  by (simp add: on_submit_def Let_def)

lemma fire_labels: "fire e s = Some s' \<Longrightarrow> labels (form s') = labels (form s)"
  by (cases e)
     (auto simp: form_on_submit labels_settle labels_edit on_close_click_def on_window_click_def
           split: if_splits)

lemma fire_calls_grow: "fire e s = Some s' \<Longrightarrow> \<exists>more. calls s' = calls s @ more"
  by (cases e)
     (auto simp: calls_on_submit calls_settle on_close_click_def on_window_click_def
           split: if_splits)

lemma run_calls_grow: "run es s = Some s' \<Longrightarrow> \<exists>more. calls s' = calls s @ more"
proof (induction es arbitrary: s)
  case Nil
  then show ?case by simp
next
  case (Cons e es)
  from Cons.prems obtain s1 where f: "fire e s = Some s1" and r: "run es s1 = Some s'"
    by (auto split: option.splits)
  from fire_calls_grow [OF f] obtain m1 where "calls s1 = calls s @ m1" ..
  moreover from Cons.IH [OF r] obtain m2 where "calls s' = calls s1 @ m2" ..
  ultimately have "calls s' = calls s @ (m1 @ m2)" by simp
  then show ?case ..
qed

subsection \<open>The overlay, step by step\<close>






subsection \<open>Counting requests\<close>



subsection \<open>Attempts are settled once\<close>

lemma attempts_ok_loaded: "attempts_ok (loaded f d)"
  by (simp add: attempts_ok_def loaded_def)

lemma attempts_ok_submit:
  assumes "attempts_ok s"
  shows "attempts_ok (on_submit s)"
proof -
  let ?P = "set (pending s)" and ?R = "fst ` set (ran s)" and ?n = "issued s"
  from assms have d: "distinct (pending s)" "distinct (map fst (ran s))"
    and dis: "?P \<inter> ?R = {}" and cov: "?P \<union> ?R = {..<?n}"
    by (simp_all add: attempts_ok_def)
  from cov have fresh: "?n \<notin> ?P" "?n \<notin> ?R" by blast+
  have p: "pending (on_submit s) = pending s @ [?n]"
    and r: "ran (on_submit s) = ran s" and n: "issued (on_submit s) = Suc ?n"
    by (simp_all add: on_submit_def Let_def)
  have "distinct (pending s @ [?n])" using d(1) fresh(1) by simp
  moreover have "(?P \<union> {?n}) \<inter> ?R = {}" using dis fresh(2) by blast
  moreover have "(?P \<union> {?n}) \<union> ?R = {..<Suc ?n}" using cov by (auto simp: lessThan_Suc)
  ultimately show ?thesis using d(2) by (simp add: attempts_ok_def p r n)
qed

lemma attempts_ok_settle:
  assumes "attempts_ok s" and "i \<in> set (pending s)" and "named (ascii ''reset'') (form s) = []"
  shows "attempts_ok (settle i out (s\<lparr>pending := removeAll i (pending s)\<rparr>))"
proof -
  let ?P = "set (pending s)" and ?R = "fst ` set (ran s)" and ?n = "issued s"
  let ?s' = "settle i out (s\<lparr>pending := removeAll i (pending s)\<rparr>)"
  from assms(1) have d: "distinct (pending s)" "distinct (map fst (ran s))"
    and dis: "?P \<inter> ?R = {}" and cov: "?P \<union> ?R = {..<?n}"
    by (simp_all add: attempts_ok_def)
  from dis assms(2) have fresh: "i \<notin> ?R" by blast
  have p: "pending ?s' = removeAll i (pending s)"
    and r: "ran ?s' = ran s @ [(i, branch_of out)]" and n: "issued ?s' = ?n"
    using assms(3) by (simp_all add: pending_settle ran_settle issued_settle)
  have "distinct (removeAll i (pending s))" using d(1) by (simp add: distinct_removeAll)
  moreover have "distinct (map fst (ran s @ [(i, branch_of out)]))" using d(2) fresh by simp
  moreover have "(?P - {i}) \<inter> (?R \<union> {i}) = {}" using dis by blast
  moreover have "(?P - {i}) \<union> (?R \<union> {i}) = {..<?n}" using cov assms(2) by blast
  ultimately show ?thesis by (simp add: attempts_ok_def p r n)
qed

lemma attempts_ok_fire:
  assumes "fire e s = Some s'" and "attempts_ok s" and "named (ascii ''reset'') (form s) = []"
  shows "attempts_ok s'"
proof (cases e)
  case Submit
  with assms attempts_ok_submit show ?thesis by auto
next
  case (Settle i out)
  with assms attempts_ok_settle show ?thesis by (auto split: if_splits)
next
  case CloseClick
  with assms show ?thesis by (clarsimp simp: attempts_ok_def on_close_click_def)
next
  case (WindowClick t)
  with assms show ?thesis by (clarsimp simp: attempts_ok_def on_window_click_def)
next
  case (Input k i)
  with assms show ?thesis by (clarsimp simp: attempts_ok_def split: if_splits)
qed

lemma fire_reset_callable:
  "fire e s = Some s' \<Longrightarrow> named n (form s') = [] \<longleftrightarrow> named n (form s) = []"
  by (rule named_labels_cong) (rule fire_labels)

lemma attempts_ok_run:
  "run es s = Some s' \<Longrightarrow> attempts_ok s \<Longrightarrow> named (ascii ''reset'') (form s) = [] \<Longrightarrow>
   attempts_ok s'"
proof (induction es arbitrary: s)
  case Nil
  then show ?case by simp
next
  case (Cons e es)
  from Cons.prems(1) obtain s1 where f: "fire e s = Some s1" and r: "run es s1 = Some s'"
    by (auto split: option.splits)
  from fire_reset_callable [OF f] Cons.prems(3) have "named (ascii ''reset'') (form s1) = []"
    by simp
  from Cons.IH [OF r attempts_ok_fire [OF f Cons.prems(2,3)] this] show ?case .
qed


lemma distinct_fst_filter_le1:
  "distinct (map fst xs) \<Longrightarrow> length (filter (\<lambda>p. fst p = i) xs) \<le> 1"
  by (induction xs) (auto simp: filter_empty_conv image_iff)

lemma filter_fst_pos: "i \<in> fst ` set xs \<Longrightarrow> 0 < length (filter (\<lambda>p. fst p = i) xs)"
  by (induction xs) auto

lemma filter_fst_zero: "i \<notin> fst ` set xs \<Longrightarrow> length (filter (\<lambda>p. fst p = i) xs) = 0"
  by (induction xs) auto

section \<open>Properties\<close>

text \<open>
  C1. When the \<open>fetch\<close> promise of a submission is fulfilled with a response whose
  status is between 200 and 299, and no control of the form has the name or the id
  \<open>reset\<close>, the handler resets the form, so that every control is in its default
  state (the controls themselves and their names stay), sets the overlay's display to
  \<open>block\<close>, and shows no alert.
\<close>

theorem submit_success:
  assumes "fire (Settle i (Fulfilled r)) s = Some s'"
    and "200 \<le> status r \<and> status r \<le> 299"
    and "named (ascii ''reset'') (form s) = []"
  shows "form s' = reset (form s) \<and>
         (\<forall>c \<in> set (elements (form s')). at_default (widget c)) \<and>
         map cname (elements (form s')) = map cname (elements (form s)) \<and>
         modal_display s' = ascii ''block'' \<and>
         calls s' = calls s"
proof -
  from assms(2) have o: "ok r" by (simp add: ok_def)
  from assms(1) have s': "s' = settle i (Fulfilled r) (s\<lparr>pending := removeAll i (pending s)\<rparr>)"
    by (simp split: if_splits)
  from assms(3) have n: "named (ascii ''reset'') (form (s\<lparr>pending := removeAll i (pending s)\<rparr>)) = []"
    by simp
  have f: "form s' = reset (form s)" and d: "modal_display s' = ascii ''block''"
    and c: "calls s' = calls s"
    unfolding s' settle_fulfilled_ok [OF o n] by simp_all
  have "\<forall>c \<in> set (elements (form s')). at_default (widget c)"
    unfolding f using reset_at_default by blast
  moreover have "map cname (elements (form s')) = map cname (elements (form s))"
    unfolding f by (simp add: reset_def comp_def)
  ultimately show ?thesis using f d c by simp
qed

theorem submit_success_witness:
  "(case fire (Settle 0 (Fulfilled \<lparr>status = 200, content = []\<rparr>)) (on_submit demo_page) of
      None \<Rightarrow> False
    | Some s' \<Rightarrow> map widget (elements (form s')) =
                   [TextField [] [], FileField [], Checkbox None False False, Button] \<and>
                 modal_display s' = ascii ''block'')"
proof -
  let ?r = "\<lparr>status = 200, content = []\<rparr>"
  obtain s' where f: "fire (Settle 0 (Fulfilled ?r)) (on_submit demo_page) = Some s'"
    by (simp add: on_submit_def demo_page_def loaded_def Let_def)
  have h: "200 \<le> status ?r \<and> status ?r \<le> 299" by simp
  have n: "named (ascii ''reset'') (form (on_submit demo_page)) = []"
    by (simp add: form_on_submit demo_page_def demo_form_def loaded_def named_def ascii_def)
  from submit_success [OF f h n] show ?thesis
    unfolding f by (simp add: reset_def form_on_submit demo_page_def demo_form_def loaded_def)
qed

text \<open>
  The condition on the controls is needed. In \<open>reset_named_form\<close>, whose reset button
  is named \<open>reset\<close>, the expression \<open>form.reset\<close> is that button and the call throws:
  after a response with status 200 the controls keep their values, which are not the
  default ones, the display stays \<open>none\<close>, and the alert of the \<open>catch\<close> handler is
  shown.
\<close>

theorem submit_success_counterexample:
  "map_option modal_display
     (fire (Settle 0 (Fulfilled \<lparr>status = 200, content = []\<rparr>)) (on_submit reset_named_page))
     = Some (ascii ''none'') \<and>
   map_option form
     (fire (Settle 0 (Fulfilled \<lparr>status = 200, content = []\<rparr>)) (on_submit reset_named_page))
     = Some reset_named_form \<and>
   reset reset_named_form \<noteq> reset_named_form \<and>
   map_option (new_calls (on_submit reset_named_page))
     (fire (Settle 0 (Fulfilled \<lparr>status = 200, content = []\<rparr>)) (on_submit reset_named_page))
     = Some [Alert [0x901A, 0x4FE1, 0x30A8, 0x30E9, 0x30FC, 0x304C, 0x767A, 0x751F, 0x3057,
                    0x307E, 0x3057, 0x305F, 0x3002]]"
proof -
  let ?s = "(on_submit reset_named_page)\<lparr>pending := []\<rparr>"
  have n: "named (ascii ''reset'') (form ?s) \<noteq> []"
    by (simp add: form_on_submit reset_named_page_def reset_named_form_def demo_form_def
        loaded_def named_def)
  have o: "ok \<lparr>status = 200, content = []\<rparr>" by (simp add: ok_def)
  have f: "fire (Settle 0 (Fulfilled \<lparr>status = 200, content = []\<rparr>)) (on_submit reset_named_page)
           = Some (settle 0 (Fulfilled \<lparr>status = 200, content = []\<rparr>) ?s)"
    by (simp add: on_submit_def Let_def reset_named_page_def loaded_def)
  have r: "reset reset_named_form \<noteq> reset_named_form"
    by (simp add: reset_def reset_named_form_def demo_form_def ascii_def)
  show ?thesis
    unfolding f settle_fulfilled_ok_throw [OF o n]
    using r
    by (simp add: new_calls_def on_submit_def Let_def reset_named_page_def loaded_def
        network_failure_text_def)
qed

text \<open>
  C2. When the \<open>fetch\<close> promise is fulfilled with a response whose status is outside
  200 to 299, the handler shows one alert with the text of the source (given here by its
  UTF-16 code units), and leaves the form and the overlay's display as they were.
\<close>

theorem submit_http_failure:
  assumes "fire (Settle i (Fulfilled r)) s = Some s'"
    and "\<not> (200 \<le> status r \<and> status r \<le> 299)"
  shows "calls s' = calls s @
           [Alert [0x9001, 0x4FE1, 0x306B, 0x5931, 0x6557, 0x3057, 0x307E, 0x3057, 0x305F,
                   0x3002]] \<and>
         form s' = form s \<and> modal_display s' = modal_display s"
proof -
  from assms(2) have "\<not> ok r" by (simp add: ok_def)
  with assms(1) show ?thesis
    by (auto simp: settle_fulfilled_not_ok http_failure_text_def split: if_splits)
qed

theorem submit_http_failure_witness:
  "(case fire (Settle 0 (Fulfilled \<lparr>status = 500, content = []\<rparr>)) (on_submit demo_page) of
      None \<Rightarrow> False
    | Some s' \<Rightarrow>
        new_calls (on_submit demo_page) s' =
          [Alert [0x9001, 0x4FE1, 0x306B, 0x5931, 0x6557, 0x3057, 0x307E, 0x3057, 0x305F,
                  0x3002]] \<and>
        form s' = demo_form \<and> modal_display s' = ascii ''none'')"
proof -
  let ?r = "\<lparr>status = 500, content = []\<rparr>"
  obtain s' where f: "fire (Settle 0 (Fulfilled ?r)) (on_submit demo_page) = Some s'"
    by (simp add: on_submit_def demo_page_def loaded_def Let_def)
  have h: "\<not> (200 \<le> status ?r \<and> status ?r \<le> 299)" by simp
  from submit_http_failure [OF f h] show ?thesis
    unfolding f by (simp add: new_calls_def on_submit_def demo_page_def loaded_def Let_def)
qed

text \<open>
  C3. When the \<open>fetch\<close> promise is rejected, the handler shows one alert with the
  network-failure text of the source (given by its UTF-16 code units), and leaves the
  form and the overlay's display as they were.
\<close>

theorem submit_network_failure:
  assumes "fire (Settle i Rejected) s = Some s'"
  shows "calls s' = calls s @
           [Alert [0x901A, 0x4FE1, 0x30A8, 0x30E9, 0x30FC, 0x304C, 0x767A, 0x751F, 0x3057,
                   0x307E, 0x3057, 0x305F, 0x3002]] \<and>
         form s' = form s \<and> modal_display s' = modal_display s"
  using assms
  by (auto simp: settle_rejected network_failure_text_def split: if_splits)

theorem submit_network_failure_witness:
  "(case fire (Settle 0 Rejected) (on_submit demo_page) of
      None \<Rightarrow> False
    | Some s' \<Rightarrow>
        new_calls (on_submit demo_page) s' =
          [Alert [0x901A, 0x4FE1, 0x30A8, 0x30E9, 0x30FC, 0x304C, 0x767A, 0x751F, 0x3057,
                  0x307E, 0x3057, 0x305F, 0x3002]] \<and>
        form s' = demo_form \<and> modal_display s' = ascii ''none'')"
proof -
  obtain s' where f: "fire (Settle 0 Rejected) (on_submit demo_page) = Some s'"
    by (simp add: on_submit_def demo_page_def loaded_def Let_def)
  from submit_network_failure [OF f] show ?thesis
    unfolding f by (simp add: new_calls_def on_submit_def demo_page_def loaded_def Let_def)
qed

text \<open>
  C4. The first thing the submit listener does is call \<open>preventDefault\<close>: the calls it
  adds are that one and then the \<open>fetch\<close>. Whatever events follow, among them either
  way of settling the request, the call stays in the log right after the calls made
  before the submission.
\<close>

theorem submit_prevents_default:
  assumes "run es (on_submit s) = Some s'"
  shows "(\<exists>req. calls (on_submit s) = calls s @ [PreventDefault, Fetch req]) \<and>
         (\<exists>more. calls s' = calls s @ PreventDefault # more)"
proof -
  from run_calls_grow [OF assms] obtain m where "calls s' = calls (on_submit s) @ m" ..
  then show ?thesis by (simp add: calls_on_submit)
qed

theorem submit_prevents_default_witness:
  "(case run [Settle 0 Rejected] (on_submit demo_page) of
      None \<Rightarrow> False
    | Some s' \<Rightarrow> take 1 (calls (on_submit demo_page)) = [PreventDefault] \<and>
                 take 1 (calls s') = [PreventDefault])"
proof -
  obtain s' where f: "run [Settle 0 Rejected] (on_submit demo_page) = Some s'"
    by (simp add: on_submit_def demo_page_def loaded_def Let_def)
  have c: "calls demo_page = []" by (simp add: demo_page_def loaded_def)
  from submit_prevents_default [OF f] show ?thesis
    unfolding f by (auto simp: c)
qed



text \<open>
  C6. A click on the close button sets the overlay's display to \<open>none\<close> whatever it was
  before and changes nothing else; on an overlay that is already hidden it leaves the
  page exactly as it is. The listener has no failing path.
\<close>

theorem close_click_hides:
  "modal_display (on_close_click s) = ascii ''none'' \<and>
   on_close_click s = s\<lparr>modal_display := ascii ''none''\<rparr> \<and>
   (modal_display s = ascii ''none'' \<longrightarrow> on_close_click s = s)"
  by (simp add: on_close_click_def)

theorem close_click_hides_witness:
  "modal_display demo_page = ascii ''none'' \<and> on_close_click demo_page = demo_page \<and>
   modal_display (on_close_click (demo_page\<lparr>modal_display := ascii ''block''\<rparr>)) = ascii ''none''"
  using close_click_hides [of demo_page]
    close_click_hides [of "demo_page\<lparr>modal_display := ascii ''block''\<rparr>"]
  by (simp add: demo_page_def loaded_def)

text \<open>
  C7. A click on the window whose target is the overlay element itself sets the
  overlay's display to \<open>none\<close>; with any other target (the form, the close button, or
  any other element, the overlay's descendants among them) the listener changes
  nothing. So on an overlay that is not hidden, the click hides it exactly when its
  target is the overlay.
\<close>

theorem window_click_backdrop_only:
  "(target = Modal \<longrightarrow> on_window_click target s = s\<lparr>modal_display := ascii ''none''\<rparr>) \<and>
   (target \<noteq> Modal \<longrightarrow> on_window_click target s = s) \<and>
   (modal_display s \<noteq> ascii ''none'' \<longrightarrow>
      (modal_display (on_window_click target s) = ascii ''none'') = (target = Modal))"
  by (simp add: on_window_click_def)

theorem window_click_backdrop_only_witness:
  "modal_display (demo_page\<lparr>modal_display := ascii ''block''\<rparr>) \<noteq> ascii ''none'' \<and>
   modal_display (on_window_click Modal (demo_page\<lparr>modal_display := ascii ''block''\<rparr>))
     = ascii ''none'' \<and>
   on_window_click (Other 3) (demo_page\<lparr>modal_display := ascii ''block''\<rparr>)
     = demo_page\<lparr>modal_display := ascii ''block''\<rparr>"
  using window_click_backdrop_only [of Modal "demo_page\<lparr>modal_display := ascii ''block''\<rparr>"]
    window_click_backdrop_only [of "Other 3" "demo_page\<lparr>modal_display := ascii ''block''\<rparr>"]
  by (simp add: ascii_def)




text \<open>
  C9. When no control of the form has the name or the id \<open>reset\<close>, the function given
  to \<open>then\<close> completes normally, so the function given to \<open>catch\<close> runs only when the
  \<open>fetch\<close> promise is rejected. Settling attempt \<open>i\<close> then enters exactly one branch,
  the one its outcome selects, with the calls of that branch alone: none on success,
  one alert on either failure. Along any sequence of events from the freshly loaded
  page, an attempt has entered at most one branch: exactly one once it has settled, and
  none before.
\<close>

theorem one_outcome_per_attempt:
  "(named (ascii ''reset'') (form s) = [] \<longrightarrow>
      (\<exists>s1. then_handler i r s = Normal s1) \<and>
      branches i (settle i out s) = branches i s @ [branch_of out] \<and>
      new_calls s (settle i out s) =
        (case branch_of out of
           Success \<Rightarrow> []
         | HttpFailure \<Rightarrow> [Alert http_failure_text]
         | NetworkFailure \<Rightarrow> [Alert network_failure_text])) \<and>
   (named (ascii ''reset'') f = [] \<and> run es (loaded f d) = Some s' \<longrightarrow>
      length (branches i s') \<le> 1 \<and>
      length (branches i s') = (if i < issued s' \<and> i \<notin> set (pending s') then 1 else 0))"
proof -
  have th: "\<exists>s1. then_handler i r s = Normal s1"
    if "named (ascii ''reset'') (form s) = []"
    using that by (simp add: then_handler_def Let_def form_reset_callable)
  have st: "branches i (settle i out s) = branches i s @ [branch_of out]"
    if "named (ascii ''reset'') (form s) = []"
    using that by (simp add: branches_def ran_settle)
  have nc: "new_calls s (settle i out s) =
     (case branch_of out of
        Success \<Rightarrow> []
      | HttpFailure \<Rightarrow> [Alert http_failure_text]
      | NetworkFailure \<Rightarrow> [Alert network_failure_text])"
    if "named (ascii ''reset'') (form s) = []"
    using that by (simp add: new_calls_def calls_settle split: branch.splits)
  have sys: "length (branches i s') \<le> 1 \<and>
      length (branches i s') = (if i < issued s' \<and> i \<notin> set (pending s') then 1 else 0)"
    if n: "named (ascii ''reset'') f = []" and r: "run es (loaded f d) = Some s'"
  proof -
    from n have "named (ascii ''reset'') (form (loaded f d)) = []" by (simp add: loaded_def)
    from attempts_ok_run [OF r attempts_ok_loaded this] have inv: "attempts_ok s'" .
    then have dd: "distinct (map fst (ran s'))" by (simp add: attempts_ok_def)
    have le: "length (branches i s') \<le> 1"
      using distinct_fst_filter_le1 [OF dd] by (simp add: branches_def)
    have eq: "length (branches i s') = (if i < issued s' \<and> i \<notin> set (pending s') then 1 else 0)"
    proof (cases "i < issued s' \<and> i \<notin> set (pending s')")
      case True
      with inv have "i \<in> fst ` set (ran s')" by (auto simp: attempts_ok_def)
      from filter_fst_pos [OF this] have "0 < length (branches i s')"
        by (simp add: branches_def)
      with le have "length (branches i s') = 1" by linarith
      with True show ?thesis by simp
    next
      case False
      with inv have "i \<notin> fst ` set (ran s')" by (auto simp: attempts_ok_def)
      from filter_fst_zero [OF this] False show ?thesis by (simp add: branches_def)
    qed
    from le eq show ?thesis ..
  qed
  from th st nc sys show ?thesis by blast
qed

theorem one_outcome_per_attempt_witness:
  "(case run [Submit, Submit, Settle 1 (Fulfilled \<lparr>status = 500, content = []\<rparr>), Submit,
              Settle 0 Rejected] (loaded demo_form (ascii ''none'')) of
      None \<Rightarrow> False
    | Some s' \<Rightarrow> length (branches 0 s') = 1 \<and> length (branches 1 s') = 1 \<and>
                 length (branches 2 s') = 0) \<and>
   branches 0 (settle 0 (Fulfilled \<lparr>status = 200, content = []\<rparr>) demo_page) = [Success]"
proof -
  let ?es = "[Submit, Submit, Settle 1 (Fulfilled \<lparr>status = 500, content = []\<rparr>), Submit,
              Settle 0 Rejected]"
  obtain s' where r: "run ?es (loaded demo_form (ascii ''none'')) = Some s'"
    and i: "issued s' = 3" and p: "pending s' = [2]"
    by (simp add: on_submit_def loaded_def Let_def pending_settle issued_settle)
  have n: "named (ascii ''reset'') demo_form = []"
    by (simp add: demo_form_def named_def ascii_def)
  have n': "named (ascii ''reset'') (form demo_page) = []"
    by (simp add: demo_page_def loaded_def n)
  have b: "branches 0 demo_page = []" by (simp add: branches_def demo_page_def loaded_def)
  from one_outcome_per_attempt [where i = 0 and es = ?es and f = demo_form
      and d = "ascii ''none''" and s' = s' and s = demo_page
      and out = "Fulfilled \<lparr>status = 200, content = []\<rparr>"]
    one_outcome_per_attempt [where i = 1 and es = ?es and f = demo_form
      and d = "ascii ''none''" and s' = s' and s = demo_page and out = Rejected]
    one_outcome_per_attempt [where i = 2 and es = ?es and f = demo_form
      and d = "ascii ''none''" and s' = s' and s = demo_page and out = Rejected]
    r i p n n'
  show ?thesis unfolding r by (simp add: b ok_def)
qed

text \<open>
  The condition on the controls is needed. In \<open>reset_named_form\<close> a response with
  status 200 enters the success branch, where \<open>form.reset()\<close> throws, and then the
  \<open>catch\<close> handler, which shows its alert: two branches for one attempt.
\<close>

theorem one_outcome_per_attempt_counterexample:
  "map_option (branches 0)
     (fire (Settle 0 (Fulfilled \<lparr>status = 200, content = []\<rparr>)) (on_submit reset_named_page))
     = Some [Success, NetworkFailure] \<and>
   map_option (new_calls (on_submit reset_named_page))
     (fire (Settle 0 (Fulfilled \<lparr>status = 200, content = []\<rparr>)) (on_submit reset_named_page))
     = Some [Alert network_failure_text]"
proof -
  let ?s = "(on_submit reset_named_page)\<lparr>pending := []\<rparr>"
  have n: "named (ascii ''reset'') (form ?s) \<noteq> []"
    by (simp add: form_on_submit reset_named_page_def reset_named_form_def demo_form_def
        loaded_def named_def)
  have o: "ok \<lparr>status = 200, content = []\<rparr>" by (simp add: ok_def)
  have f: "fire (Settle 0 (Fulfilled \<lparr>status = 200, content = []\<rparr>)) (on_submit reset_named_page)
           = Some (settle 0 (Fulfilled \<lparr>status = 200, content = []\<rparr>) ?s)"
    by (simp add: on_submit_def Let_def reset_named_page_def loaded_def)
  show ?thesis
    unfolding f settle_fulfilled_ok_throw [OF o n]
    by (simp add: branches_def new_calls_def on_submit_def Let_def reset_named_page_def
        loaded_def)
qed

text \<open>
  C10. What a handler does is a function of the form, the overlay's display and, for
  the settling of a request, its outcome (rejection, or the status of the response):
  started on two pages that agree on the form and the display, with the same outcome,
  each of the handlers (the submit listener, its continuation, the close listener and
  the window listener on the same target) ends with the same form, the same display and
  the same new calls, so in particular the same alert if any.
\<close>

theorem handlers_deterministic:
  assumes "form s1 = form s2" and "modal_display s1 = modal_display s2"
    and "same_outcome out1 out2"
  shows "form (on_submit s1) = form (on_submit s2) \<and>
         modal_display (on_submit s1) = modal_display (on_submit s2) \<and>
         new_calls s1 (on_submit s1) = new_calls s2 (on_submit s2) \<and>
         form (settle i1 out1 s1) = form (settle i2 out2 s2) \<and>
         modal_display (settle i1 out1 s1) = modal_display (settle i2 out2 s2) \<and>
         new_calls s1 (settle i1 out1 s1) = new_calls s2 (settle i2 out2 s2) \<and>
         form (on_close_click s1) = form (on_close_click s2) \<and>
         modal_display (on_close_click s1) = modal_display (on_close_click s2) \<and>
         new_calls s1 (on_close_click s1) = new_calls s2 (on_close_click s2) \<and>
         form (on_window_click target s1) = form (on_window_click target s2) \<and>
         modal_display (on_window_click target s1) = modal_display (on_window_click target s2) \<and>
         new_calls s1 (on_window_click target s1) = new_calls s2 (on_window_click target s2)"
proof -
  from assms(3) have b: "branch_of out1 = branch_of out2"
    by (cases out1; cases out2) (simp_all add: ok_def)
  have sub: "form (on_submit s1) = form (on_submit s2) \<and>
         modal_display (on_submit s1) = modal_display (on_submit s2) \<and>
         new_calls s1 (on_submit s1) = new_calls s2 (on_submit s2)"
    using assms(1,2) by (simp add: new_calls_def calls_on_submit) (simp add: on_submit_def Let_def)
  have se: "form (settle i1 out1 s1) = form (settle i2 out2 s2) \<and>
         modal_display (settle i1 out1 s1) = modal_display (settle i2 out2 s2) \<and>
         new_calls s1 (settle i1 out1 s1) = new_calls s2 (settle i2 out2 s2)"
    using assms(1,2) b by (simp add: new_calls_def calls_settle form_settle display_settle)
  have cl: "form (on_close_click s1) = form (on_close_click s2) \<and>
         modal_display (on_close_click s1) = modal_display (on_close_click s2) \<and>
         new_calls s1 (on_close_click s1) = new_calls s2 (on_close_click s2)"
    using assms(1,2) by (simp add: new_calls_def on_close_click_def)
  have wi: "form (on_window_click target s1) = form (on_window_click target s2) \<and>
         modal_display (on_window_click target s1) = modal_display (on_window_click target s2) \<and>
         new_calls s1 (on_window_click target s1) = new_calls s2 (on_window_click target s2)"
    using assms(1,2) by (simp add: new_calls_def on_window_click_def)
  from sub se cl wi show ?thesis by blast
qed

theorem handlers_deterministic_witness:
  "same_outcome (Fulfilled \<lparr>status = 404, content = ascii ''a''\<rparr>)
                (Fulfilled \<lparr>status = 404, content = ascii ''b''\<rparr>) \<and>
   new_calls demo_page (settle 0 (Fulfilled \<lparr>status = 404, content = ascii ''a''\<rparr>) demo_page) =
   new_calls (on_close_click (on_submit demo_page))
     (settle 5 (Fulfilled \<lparr>status = 404, content = ascii ''b''\<rparr>)
        (on_close_click (on_submit demo_page)))"
proof -
  let ?s2 = "on_close_click (on_submit demo_page)"
  have f: "form demo_page = form ?s2"
    by (simp add: on_close_click_def on_submit_def Let_def)
  have d: "modal_display demo_page = modal_display ?s2"
    by (simp add: on_close_click_def on_submit_def Let_def demo_page_def loaded_def)
  have o: "same_outcome (Fulfilled \<lparr>status = 404, content = ascii ''a''\<rparr>)
                (Fulfilled \<lparr>status = 404, content = ascii ''b''\<rparr>)" by simp
  from handlers_deterministic [OF f d o, of 0 5] o show ?thesis by simp
qed


end
